theory Spec2Isabelle
  imports Main "HOL-Library.Sublist"
begin

section \<open>ChipPort: the request/response pipeline of \<^verbatim>\<open>src/main.cpp\<close>\<close>

text \<open>
  The development follows \<^verbatim>\<open>src/main.cpp\<close>: \<^verbatim>\<open>getContentType\<close>, the constructor
  of \<^verbatim>\<open>Request\<close>, \<^verbatim>\<open>Response::buildResponse\<close>, the constructor of
  \<^verbatim>\<open>RequestHandler\<close> and \<^verbatim>\<open>RequestHandler::handleRequest\<close>.

  A \<^verbatim>\<open>std::string\<close> is a \<^typ>\<open>string\<close>, a list of 8-bit characters, so
  \<^const>\<open>length\<close> counts bytes as \<^verbatim>\<open>std::string::length\<close> does. An exception is
  a value: \<open>Inl OutOfRange\<close> is the \<^verbatim>\<open>std::out_of_range\<close> of
  \<^verbatim>\<open>std::string::substr\<close>, and \<open>Inl IosFailure\<close> is the
  \<^verbatim>\<open>std::ios_base::failure\<close> that the stream buffer of a file throws when reading from
  the opened file fails. The program catches neither. The function
  \<^verbatim>\<open>log\<close> only writes to \<^verbatim>\<open>std::cout\<close> and returns nothing, so it does not
  appear in the embedding.
\<close>

subsection \<open>Parts of the C++ standard library\<close>

datatype error = OutOfRange | IosFailure

text \<open>
  An opened \<^verbatim>\<open>std::ifstream\<close>, by what reading it to the end through
  \<^verbatim>\<open>std::istreambuf_iterator\<close> does: it yields the bytes of the file, or the read fails (the
  name is a directory, the device reports an error) and the stream buffer throws.
\<close>

datatype ifstream = Contents string | ReadFails

definition LF :: char where
  "LF = CHR 0x0A"

definition CR :: char where
  "CR = CHR 0x0D"

text \<open>
  \<^verbatim>\<open>size_t\<close> is unsigned and 64 bits wide: a subtraction below zero wraps around.
\<close>

definition size_t_sub :: "nat \<Rightarrow> nat \<Rightarrow> nat" where
  "size_t_sub a b = nat ((int a - int b) mod 2 ^ 64)"

text \<open>\<^verbatim>\<open>s.find(c)\<close>: the index of the first \<open>c\<close>; \<open>None\<close> stands for \<^verbatim>\<open>npos\<close>.\<close>

fun string_find :: "string \<Rightarrow> char \<Rightarrow> nat option" where
  "string_find [] c = None"
| "string_find (x # xs) c =
     (if x = c then Some 0
      else (case string_find xs c of None \<Rightarrow> None | Some i \<Rightarrow> Some (Suc i)))"

text \<open>\<^verbatim>\<open>s.find_last_of(c)\<close>: the index of the last \<open>c\<close>; \<open>None\<close> stands for \<^verbatim>\<open>npos\<close>.\<close>

fun string_find_last_of :: "string \<Rightarrow> char \<Rightarrow> nat option" where
  "string_find_last_of [] c = None"
| "string_find_last_of (x # xs) c =
     (case string_find_last_of xs c of
        Some i \<Rightarrow> Some (Suc i)
      | None \<Rightarrow> (if x = c then Some 0 else None))"

text \<open>
  \<^verbatim>\<open>s.substr(pos, n)\<close> throws \<^verbatim>\<open>std::out_of_range\<close> when \<open>pos > s.size()\<close> and
  otherwise returns the characters \<open>[pos, pos + min(n, s.size() - pos))\<close>;
  \<^verbatim>\<open>s.substr(pos)\<close> has the same check and returns the characters from \<open>pos\<close> to the end.
\<close>

definition string_substr :: "string \<Rightarrow> nat \<Rightarrow> nat \<Rightarrow> error + string" where
  "string_substr s pos n =
     (if length s < pos then Inl OutOfRange else Inr (take n (drop pos s)))"

definition string_substr_from :: "string \<Rightarrow> nat \<Rightarrow> error + string" where
  "string_substr_from s pos =
     (if length s < pos then Inl OutOfRange else Inr (drop pos s))"

text \<open>
  \<^verbatim>\<open>std::isspace\<close> in the "C" locale, which the program never changes: space, \<^verbatim>\<open>\t\<close>,
  \<^verbatim>\<open>\n\<close>, \<^verbatim>\<open>\v\<close>, \<^verbatim>\<open>\f\<close> and \<^verbatim>\<open>\r\<close>.
\<close>

definition isspace :: "char \<Rightarrow> bool" where
  "isspace c \<longleftrightarrow>
     c = CHR 0x20 \<or> c = CHR 0x09 \<or> c = CHR 0x0A \<or> c = CHR 0x0B \<or> c = CHR 0x0C \<or> c = CHR 0x0D"

text \<open>
  An input string stream is the string of the characters not read yet.

  \<^verbatim>\<open>std::getline(stream, line)\<close> reads up to the next line feed, which it consumes and
  does not store. It fails, the value \<open>None\<close>, exactly when no character is left: a
  stream at its end stays there, so every later call fails too.
\<close>

definition getline :: "string \<Rightarrow> (string \<times> string) option" where
  "getline stream =
     (if stream = [] then None
      else Some (takeWhile (\<lambda>c. c \<noteq> LF) stream, drop 1 (dropWhile (\<lambda>c. c \<noteq> LF) stream)))"

lemma getline_shorter:
  "getline stream = Some (line, rest) \<Longrightarrow> length rest < length stream"
  using length_dropWhile_le [of "\<lambda>c. c \<noteq> LF" stream]
  by (cases stream) (auto simp: getline_def split: if_splits)

text \<open>
  \<^verbatim>\<open>stream >> token\<close> skips white space and reads up to the next white space. When
  nothing but white space is left the extraction fails and the target keeps its value;
  every target in the program is a fresh empty string, and a failed stream stays failed,
  so the token is empty then and the stream is at its end.
\<close>

definition extract_token :: "string \<Rightarrow> string \<times> string" where
  "extract_token stream =
     (let s = dropWhile isspace stream
      in (takeWhile (\<lambda>c. \<not> isspace c) s, dropWhile (\<lambda>c. \<not> isspace c) s))"

text \<open>\<^verbatim>\<open>stream << n\<close> for an unsigned and for a signed integer: decimal digits.\<close>

fun show_nat :: "nat \<Rightarrow> string" where
  "show_nat n =
     (if n < 10 then [''0123456789'' ! n]
      else show_nat (n div 10) @ [''0123456789'' ! (n mod 10)])"

declare show_nat.simps [simp del]

definition show_int :: "int \<Rightarrow> string" where
  "show_int i = (if i < 0 then ''-'' @ show_nat (nat (- i)) else show_nat (nat i))"

subsection \<open>\<^verbatim>\<open>getContentType\<close>\<close>

definition extensionToContentType :: "(string \<times> string) list" where
  "extensionToContentType =
     [(''.html'', ''text/html''),
      (''.jpg'', ''image/jpeg''),
      (''.jpeg'', ''image/jpeg''),
      (''.png'', ''image/png''),
      (''.css'', ''text/css''),
      (''.js'', ''application/javascript'')]"

definition getContentType :: "string \<Rightarrow> error + string" where
  "getContentType filename =
     (case string_find_last_of filename (CHR ''.'') of
        Some dotPosition \<Rightarrow>
          (case string_substr_from filename dotPosition of
             Inl e \<Rightarrow> Inl e
           | Inr extension \<Rightarrow>
               (case map_of extensionToContentType extension of
                  Some contentType \<Rightarrow> Inr contentType
                | None \<Rightarrow> Inr ''application/octet-stream''))
      | None \<Rightarrow> Inr ''application/octet-stream'')"

text \<open>
  The resolver in the words of the specification: the final extension of a name is the
  substring from its last dot to its end, the dot included, and there is none when the name
  has no dot.
\<close>

definition final_extension :: "string \<Rightarrow> string option" where
  "final_extension name =
     (if CHR ''.'' \<in> set name
      then Some (CHR ''.'' # rev (takeWhile (\<lambda>c. c \<noteq> CHR ''.'') (rev name)))
      else None)"

definition resolve :: "string option \<Rightarrow> string" where
  "resolve ext =
     (if ext = Some ''.html'' then ''text/html''
      else if ext = Some ''.jpg'' then ''image/jpeg''
      else if ext = Some ''.jpeg'' then ''image/jpeg''
      else if ext = Some ''.png'' then ''image/png''
      else if ext = Some ''.css'' then ''text/css''
      else if ext = Some ''.js'' then ''application/javascript''
      else ''application/octet-stream'')"

subsection \<open>\<^verbatim>\<open>Request\<close> and its constructor\<close>

text \<open>
  The field \<^verbatim>\<open>method\<close> is written \<open>method'\<close>, the plain word being taken by the proof
  language.
\<close>

record Request =
  method' :: string
  path :: string
  httpVersion :: string
  headers :: "string \<rightharpoonup> string"
  body :: string

text \<open>
  The header loop, \<^verbatim>\<open>while (std::getline(stream, line) && line != "\r")\<close>. The
  result is the header map and the stream left for the body. A line without a colon is
  skipped. The length passed to the second \<^verbatim>\<open>substr\<close> is computed in \<^verbatim>\<open>size_t\<close>;
  \<open>colonPos + 2\<close> cannot wrap, a string being far shorter than \<open>2 ^ 64\<close>.
\<close>

function read_headers ::
  "string \<Rightarrow> (string \<rightharpoonup> string) \<Rightarrow> error + ((string \<rightharpoonup> string) \<times> string)" where
  "read_headers stream hs =
     (case getline stream of
        None \<Rightarrow> Inr (hs, stream)
      | Some (line, rest) \<Rightarrow>
          if line = [CR] then Inr (hs, rest)
          else (case string_find line (CHR '':'') of
                  None \<Rightarrow> read_headers rest hs
                | Some colonPos \<Rightarrow>
                    (case string_substr line 0 colonPos of
                       Inl e \<Rightarrow> Inl e
                     | Inr headerName \<Rightarrow>
                         (case string_substr line (colonPos + 2)
                                 (size_t_sub (size_t_sub (length line) colonPos) 3) of
                            Inl e \<Rightarrow> Inl e
                          | Inr headerValue \<Rightarrow>
                              read_headers rest (hs(headerName \<mapsto> headerValue))))))"
  by pat_completeness auto
termination
  by (relation "measure (\<lambda>(stream, hs). length stream)") (auto dest: getline_shorter)

declare read_headers.simps [simp del]

text \<open>The body loop, \<^verbatim>\<open>while (std::getline(stream, bodyContent))\<close>.\<close>

function read_body :: "string \<Rightarrow> string \<Rightarrow> string" where
  "read_body stream acc =
     (case getline stream of
        None \<Rightarrow> acc
      | Some (bodyContent, rest) \<Rightarrow> read_body rest (acc @ bodyContent @ [LF]))"
  by pat_completeness auto
termination
  by (relation "measure (\<lambda>(stream, acc). length stream)") (auto dest: getline_shorter)

declare read_body.simps [simp del]

text \<open>
  The constructor. The result of the first \<^verbatim>\<open>getline\<close> is not tested: on an empty
  text the request line is empty.
\<close>

definition Request_ctor :: "string \<Rightarrow> error + Request" where
  "Request_ctor requestText =
     (let (line, stream) = (case getline requestText of None \<Rightarrow> ([], []) | Some r \<Rightarrow> r);
          (m, requestLine1) = extract_token line;
          (p, requestLine2) = extract_token requestLine1;
          (v, requestLine3) = extract_token requestLine2
      in case read_headers stream Map.empty of
           Inl e \<Rightarrow> Inl e
         | Inr (hs, stream') \<Rightarrow>
             Inr \<lparr>method' = m, path = p, httpVersion = v, headers = hs,
                  body = read_body stream' []\<rparr>)"

subsection \<open>\<^verbatim>\<open>Response\<close> and \<^verbatim>\<open>buildResponse\<close>\<close>

record Response =
  code :: int
  body :: string
  contentType :: string

definition STATUS_SUCCESS :: int where
  "STATUS_SUCCESS = 200"

definition STATUS_NOT_FOUND :: int where
  "STATUS_NOT_FOUND = 404"

definition STATUS_METHOD_NOT_ALLOWED :: int where
  "STATUS_METHOD_NOT_ALLOWED = 405"

definition buildResponse :: "Response \<Rightarrow> string" where
  "buildResponse r =
     ''HTTP/1.1 '' @ show_int (code r) @ '' ''
     @ (if code r = STATUS_SUCCESS then ''OK''
        else if code r = STATUS_NOT_FOUND then ''Not Found''
        else ''Method Not Allowed'') @ [LF]
     @ ''Content-Type: '' @ contentType r @ [LF]
     @ ''Content-Length: '' @ show_nat (length (Response.body r)) @ [LF, LF]
     @ Response.body r"

subsection \<open>\<^verbatim>\<open>RouteEntry\<close> and \<^verbatim>\<open>RequestHandler\<close>\<close>

record RouteEntry =
  allowedMethods :: "string list"
  content :: string
  isFile :: bool

record RequestHandler =
  routeLookUp :: "string \<rightharpoonup> RouteEntry"

definition RequestHandler_ctor :: RequestHandler where
  "RequestHandler_ctor =
     \<lparr>routeLookUp = Map.empty
        (''/'' \<mapsto>
           \<lparr>allowedMethods = [''GET''], content = ''./templates/index.html'', isFile = True\<rparr>,
         ''/test/get'' \<mapsto>
           \<lparr>allowedMethods = [''GET''], content = ''./templates/test.html'', isFile = True\<rparr>,
         ''/test/post'' \<mapsto>
           \<lparr>allowedMethods = [''POST''], content = ''./templates/test.html'', isFile = True\<rparr>,
         ''/test/put'' \<mapsto>
           \<lparr>allowedMethods = [''PUT''], content = ''./templates/test.html'', isFile = True\<rparr>,
         ''/test/post-get'' \<mapsto>
           \<lparr>allowedMethods = [''GET'', ''POST''], content = ''./templates/test.html'',
            isFile = True\<rparr>,
         ''/favicon.ico'' \<mapsto>
           \<lparr>allowedMethods = [''GET''], content = ''./static/img/favicon.jpg'',
            isFile = True\<rparr>)\<rparr>"

text \<open>The loop \<^verbatim>\<open>for (const auto& method : allowedMethods) allowed += method + " "\<close>.\<close>

fun allowed_loop :: "string list \<Rightarrow> string \<Rightarrow> string" where
  "allowed_loop [] allowed = allowed"
| "allowed_loop (m # ms) allowed = allowed_loop ms (allowed @ m @ '' '')"

text \<open>
  \<^verbatim>\<open>handleRequest\<close> is a method of the handler that is not \<^verbatim>\<open>const\<close>: it takes the
  handler and returns it with the result. The file system is a parameter: \<open>files name\<close> is
  \<open>None\<close> when \<^verbatim>\<open>std::ifstream file(name)\<close> cannot open the file, which is all that
  \<^verbatim>\<open>if (!file)\<close> tests, and the opened stream otherwise. The read that follows is not
  guarded: when it fails, the exception leaves \<^verbatim>\<open>handleRequest\<close>.
\<close>

definition handleRequest ::
  "RequestHandler \<Rightarrow> (string \<rightharpoonup> ifstream) \<Rightarrow> Request
     \<Rightarrow> (error + Response) \<times> RequestHandler" where
  "handleRequest this files request =
     (case routeLookUp this (path request) of
        None \<Rightarrow>
          (Inr \<lparr>code = STATUS_NOT_FOUND,
                body = ''<html><body>404 Route Not Found: '' @ path request @ ''</body></html>'',
                contentType = ''text/html''\<rparr>, this)
      | Some route \<Rightarrow>
          if method' request \<notin> set (allowedMethods route) then
            (Inr \<lparr>code = STATUS_METHOD_NOT_ALLOWED,
                  body = ''<html><body>405 Method Not Allowed: '' @ method' request
                    @ '' not allowed for '' @ path request @ ''. Allowed methods: ''
                    @ allowed_loop (allowedMethods route) [] @ ''</body></html>'',
                  contentType = ''text/html''\<rparr>, this)
          else if isFile route then
            (case files (content route) of
               None \<Rightarrow>
                 (Inr \<lparr>code = STATUS_NOT_FOUND,
                       body = ''<html><body>404 Resource Not Found: '' @ path request
                         @ ''</body></html>'',
                       contentType = ''text/html''\<rparr>, this)
             | Some ReadFails \<Rightarrow> (Inl IosFailure, this)
             | Some (Contents bytes) \<Rightarrow>
                 (case getContentType (content route) of
                    Inl e \<Rightarrow> (Inl e, this)
                  | Inr ct \<Rightarrow>
                      (Inr \<lparr>code = STATUS_SUCCESS, body = bytes, contentType = ct\<rparr>, this)))
          else
            (Inr \<lparr>code = STATUS_SUCCESS, body = content route, contentType = ''text/html''\<rparr>,
             this))"

text \<open>
  Successive calls on one handler, as the connection loop of \<^verbatim>\<open>HttpServer::run\<close> makes
  them, each with the file system of its moment. The loop catches nothing, so an exception
  ends it: no request after that one is handled.
\<close>

fun handleRequests ::
  "RequestHandler \<Rightarrow> ((string \<rightharpoonup> ifstream) \<times> Request) list
     \<Rightarrow> (error + Response) list \<times> RequestHandler" where
  "handleRequests this [] = ([], this)"
| "handleRequests this ((files, request) # later) =
     (let (r, this') = handleRequest this files request
      in case r of
           Inl e \<Rightarrow> ([r], this')
         | Inr response \<Rightarrow>
             (let (rs, this'') = handleRequests this' later in (r # rs, this'')))"

subsection \<open>The specification's wording of lists and numbers\<close>

text \<open>A list of methods joined by single spaces.\<close>

fun space_joined :: "string list \<Rightarrow> string" where
  "space_joined [] = []"
| "space_joined [m] = m"
| "space_joined (m # ms) = m @ '' '' @ space_joined ms"

text \<open>
  Reading a decimal number back, as a client does with the value of a header: the digits
  from the left, \<open>None\<close> on an empty text or on a character that is not a digit.
\<close>

fun read_digits :: "string \<Rightarrow> nat \<Rightarrow> nat option" where
  "read_digits [] n = Some n"
| "read_digits (c # cs) n =
     (case string_find ''0123456789'' c of
        None \<Rightarrow> None
      | Some d \<Rightarrow> read_digits cs (10 * n + d))"

definition read_decimal :: "string \<Rightarrow> nat option" where
  "read_decimal s = (if s = [] then None else read_digits s 0)"

text \<open>
  Reading the \<^verbatim>\<open>Content-Length\<close> header back from a serialized response: the lines of the
  header block, which the first empty line ends, are searched for the first one that
  starts with \<^verbatim>\<open>Content-Length: \<close>, and the rest of that line is read as a decimal number.
\<close>

function reparse_content_length :: "string \<Rightarrow> nat option" where
  "reparse_content_length out =
     (case getline out of
        None \<Rightarrow> None
      | Some (line, rest) \<Rightarrow>
          if line = [] then None
          else if take 16 line = ''Content-Length: '' then read_decimal (drop 16 line)
          else reparse_content_length rest)"
  by pat_completeness auto
termination
  by (relation "measure length") (auto dest: getline_shorter)

declare reparse_content_length.simps [simp del]

section \<open>Properties\<close>

subsection \<open>Standard library facts\<close>

lemma string_find_last_of_None:
  "string_find_last_of s c = None \<longleftrightarrow> c \<notin> set s"
  by (induction s) (auto split: option.splits)

lemma string_find_last_of_Some:
  "string_find_last_of s c = Some i \<Longrightarrow>
     i < length s \<and> drop i s = c # rev (takeWhile (\<lambda>x. x \<noteq> c) (rev s))"
proof (induction s arbitrary: i)
  case Nil
  then show ?case by simp
next
  case (Cons x xs)
  show ?case
  proof (cases "string_find_last_of xs c")
    case None
    then have "c \<notin> set xs" by (simp add: string_find_last_of_None)
    then have "takeWhile (\<lambda>x. x \<noteq> c) (rev xs @ [x]) = rev xs @ takeWhile (\<lambda>x. x \<noteq> c) [x]"
      by (intro takeWhile_append2) auto
    moreover from Cons.prems None have "x = c" "i = 0"
      by (auto split: if_splits)
    ultimately show ?thesis by simp
  next
    case (Some j)
    with Cons.prems have i: "i = Suc j" by simp
    from Some have "c \<in> set xs"
      using string_find_last_of_None [of xs c] by auto
    then have "takeWhile (\<lambda>x. x \<noteq> c) (rev xs @ [x]) = takeWhile (\<lambda>x. x \<noteq> c) (rev xs)"
      by (intro takeWhile_append1 [of c]) auto
    with Cons.IH [OF Some] i show ?thesis by simp
  qed
qed

subsection \<open>Content types\<close>

lemma map_of_extensionToContentType:
  "(case map_of extensionToContentType e of Some t \<Rightarrow> Inr t
      | None \<Rightarrow> Inr ''application/octet-stream'') = (Inr (resolve (Some e)) :: error + string)"
  by (simp add: extensionToContentType_def resolve_def)

lemma getContentType_resolve:
  "getContentType filename = Inr (resolve (final_extension filename))"
proof (cases "string_find_last_of filename (CHR ''.'')")
  case None
  then have "CHR ''.'' \<notin> set filename"
    by (simp add: string_find_last_of_None)
  with None show ?thesis
    by (simp add: getContentType_def final_extension_def resolve_def)
next
  case (Some i)
  then have dot: "CHR ''.'' \<in> set filename"
    using string_find_last_of_None [of filename "CHR ''.''"] by auto
  from string_find_last_of_Some [OF Some]
  have i: "i < length filename"
    and ext: "drop i filename = CHR ''.'' # rev (takeWhile (\<lambda>x. x \<noteq> CHR ''.'') (rev filename))"
    by simp_all
  from i have "string_substr_from filename i = Inr (drop i filename)"
    by (simp add: string_substr_from_def)
  with Some have "getContentType filename = Inr (resolve (Some (drop i filename)))"
    by (simp add: getContentType_def map_of_extensionToContentType)
  with dot ext show ?thesis
    by (simp add: final_extension_def)
qed

text \<open>
  Claim C6. \<^verbatim>\<open>getContentType\<close> never throws and its result is a function of the final
  extension alone, the substring from the last dot to the end with the dot included: the
  type the table gives for exactly \<^verbatim>\<open>.html\<close>, \<^verbatim>\<open>.jpg\<close>, \<^verbatim>\<open>.jpeg\<close>, \<^verbatim>\<open>.png\<close>,
  \<^verbatim>\<open>.css\<close> and \<^verbatim>\<open>.js\<close>, compared case-sensitively, and
  \<^verbatim>\<open>application/octet-stream\<close> for every other extension and for a name without a dot.
  So \<^verbatim>\<open>a.b.html\<close> is \<^verbatim>\<open>text/html\<close>, while \<^verbatim>\<open>noext\<close> and \<^verbatim>\<open>x.PNG\<close> get the default.
\<close>

theorem getContentType_final_extension:
  "getContentType filename = Inr (resolve (final_extension filename))
   \<and> getContentType ''a.b.html'' = Inr ''text/html''
   \<and> getContentType ''noext'' = Inr ''application/octet-stream''
   \<and> getContentType ''x.PNG'' = Inr ''application/octet-stream''"
  by (simp add: getContentType_resolve) (simp add: final_extension_def resolve_def)

subsection \<open>Routing\<close>

text \<open>
  Claim C1. For a route \<open>R\<close> registered under the path of the request and a request
  method among the allowed methods of \<open>R\<close>, \<^verbatim>\<open>handleRequest\<close> returns a response with
  code 200 whose body is the full contents of the file of \<open>R\<close> when \<open>R\<close> is file-backed
  and the file could be read, and the literal content of \<open>R\<close> otherwise. This holds for
  every route table, the one the constructor builds among them.
\<close>

theorem handleRequest_allowed_method:
  assumes "routeLookUp this (path request) = Some R"
    and "method' request \<in> set (allowedMethods R)"
    and "isFile R \<Longrightarrow> files (content R) = Some (Contents bytes)"
  shows "fst (handleRequest this files request) =
     Inr \<lparr>code = 200,
          body = (if isFile R then bytes else content R),
          contentType =
            (if isFile R then resolve (final_extension (content R)) else ''text/html'')\<rparr>"
  using assms
  by (simp add: handleRequest_def getContentType_resolve STATUS_SUCCESS_def)

theorem handleRequest_allowed_method_witness:
  "routeLookUp RequestHandler_ctor ''/test/post-get'' =
     Some \<lparr>allowedMethods = [''GET'', ''POST''], content = ''./templates/test.html'',
           isFile = True\<rparr>
   \<and> ''POST'' \<in> set [''GET'', ''POST'']
   \<and> fst (handleRequest RequestHandler_ctor
         [''./templates/test.html'' \<mapsto> Contents ''<html>test</html>'']
         \<lparr>method' = ''POST'', path = ''/test/post-get'', httpVersion = ''HTTP/1.1'',
          headers = Map.empty, body = []\<rparr>) =
       Inr \<lparr>code = 200, body = ''<html>test</html>'', contentType = ''text/html''\<rparr>"
  using handleRequest_allowed_method
    [of RequestHandler_ctor
      "\<lparr>method' = ''POST'', path = ''/test/post-get'', httpVersion = ''HTTP/1.1'',
        headers = Map.empty, body = []\<rparr>"
      "\<lparr>allowedMethods = [''GET'', ''POST''], content = ''./templates/test.html'',
        isFile = True\<rparr>"
      "[''./templates/test.html'' \<mapsto> Contents ''<html>test</html>'']"
      "''<html>test</html>''"]
  by (simp add: RequestHandler_ctor_def resolve_def final_extension_def)

lemma allowed_loop_concat:
  "allowed_loop ms allowed = allowed @ concat (map (\<lambda>m. m @ '' '') ms)"
  by (induction ms arbitrary: allowed) simp_all

lemma concat_space_joined:
  "ms \<noteq> [] \<Longrightarrow> concat (map (\<lambda>m. m @ '' '') ms) = space_joined ms @ '' ''"
  by (induction ms rule: space_joined.induct) simp_all

lemma allowed_loop_space_joined:
  "allowed_loop ms [] = (if ms = [] then [] else space_joined ms @ '' '')"
  by (simp add: allowed_loop_concat concat_space_joined)

text \<open>
  Claim C3. For a route \<open>R\<close> registered under the path of the request and a request
  method that is not among the allowed methods of \<open>R\<close>, \<^verbatim>\<open>handleRequest\<close> returns a
  response with code 405 whose body lists the allowed methods of \<open>R\<close> and nothing else
  after \<^verbatim>\<open>Allowed methods: \<close>: joined by single spaces in their declared order, with
  one more space after the last of them.
\<close>

theorem handleRequest_method_not_allowed:
  assumes "routeLookUp this (path request) = Some R"
    and "method' request \<notin> set (allowedMethods R)"
  shows "fst (handleRequest this files request) =
     Inr \<lparr>code = 405,
          body = ''<html><body>405 Method Not Allowed: '' @ method' request
            @ '' not allowed for '' @ path request @ ''. Allowed methods: ''
            @ (if allowedMethods R = [] then [] else space_joined (allowedMethods R) @ '' '')
            @ ''</body></html>'',
          contentType = ''text/html''\<rparr>"
  using assms
  by (simp add: handleRequest_def allowed_loop_space_joined STATUS_METHOD_NOT_ALLOWED_def)

theorem handleRequest_method_not_allowed_witness:
  "routeLookUp RequestHandler_ctor ''/test/post-get'' =
     Some \<lparr>allowedMethods = [''GET'', ''POST''], content = ''./templates/test.html'',
           isFile = True\<rparr>
   \<and> ''PUT'' \<notin> set [''GET'', ''POST'']
   \<and> fst (handleRequest RequestHandler_ctor Map.empty
         \<lparr>method' = ''PUT'', path = ''/test/post-get'', httpVersion = ''HTTP/1.1'',
          headers = Map.empty, body = []\<rparr>) =
       Inr \<lparr>code = 405,
            body = ''<html><body>405 Method Not Allowed: PUT not allowed for /test/post-get. Allowed methods: GET POST </body></html>'',
            contentType = ''text/html''\<rparr>"
  using handleRequest_method_not_allowed
    [of RequestHandler_ctor
      "\<lparr>method' = ''PUT'', path = ''/test/post-get'', httpVersion = ''HTTP/1.1'',
        headers = Map.empty, body = []\<rparr>"
      "\<lparr>allowedMethods = [''GET'', ''POST''], content = ''./templates/test.html'',
        isFile = True\<rparr>"
      Map.empty]
  by (simp add: RequestHandler_ctor_def)

text \<open>
  Claim C4. When the path of the request is not a key of the route table, the keys being
  compared with the path as they are, \<^verbatim>\<open>handleRequest\<close> returns a response with code
  404 whatever the method is.
\<close>

theorem handleRequest_unknown_path:
  assumes "path request \<notin> dom (routeLookUp this)"
  shows "fst (handleRequest this files request) =
     Inr \<lparr>code = 404,
          body = ''<html><body>404 Route Not Found: '' @ path request @ ''</body></html>'',
          contentType = ''text/html''\<rparr>"
  using assms
  by (auto simp: handleRequest_def STATUS_NOT_FOUND_def dom_def)

theorem handleRequest_unknown_path_witness:
  "''/test/get/'' \<notin> dom (routeLookUp RequestHandler_ctor)
   \<and> ''/test/get?x=1'' \<notin> dom (routeLookUp RequestHandler_ctor)
   \<and> fst (handleRequest RequestHandler_ctor [''./templates/test.html'' \<mapsto> Contents ''<html>test</html>'']
         \<lparr>method' = ''GET'', path = ''/test/get/'', httpVersion = ''HTTP/1.1'',
          headers = Map.empty, body = []\<rparr>) =
       Inr \<lparr>code = 404,
            body = ''<html><body>404 Route Not Found: /test/get/</body></html>'',
            contentType = ''text/html''\<rparr>
   \<and> fst (handleRequest RequestHandler_ctor [''./templates/test.html'' \<mapsto> Contents ''<html>test</html>'']
         \<lparr>method' = ''GET'', path = ''/test/get?x=1'', httpVersion = ''HTTP/1.1'',
          headers = Map.empty, body = []\<rparr>) =
       Inr \<lparr>code = 404,
            body = ''<html><body>404 Route Not Found: /test/get?x=1</body></html>'',
            contentType = ''text/html''\<rparr>"
  using handleRequest_unknown_path
    [of "\<lparr>method' = ''GET'', path = ''/test/get/'', httpVersion = ''HTTP/1.1'',
        headers = Map.empty, body = []\<rparr>" RequestHandler_ctor
        "[''./templates/test.html'' \<mapsto> Contents ''<html>test</html>'']"]
    handleRequest_unknown_path
    [of "\<lparr>method' = ''GET'', path = ''/test/get?x=1'', httpVersion = ''HTTP/1.1'',
        headers = Map.empty, body = []\<rparr>" RequestHandler_ctor
        "[''./templates/test.html'' \<mapsto> Contents ''<html>test</html>'']"]
  by (simp add: RequestHandler_ctor_def)

text \<open>
  Claim C5. For a file-backed route whose file cannot be opened and a request with an
  allowed method, \<^verbatim>\<open>handleRequest\<close> returns normally, with a response of code 404.
\<close>

theorem handleRequest_file_missing:
  assumes "routeLookUp this (path request) = Some R"
    and "isFile R"
    and "method' request \<in> set (allowedMethods R)"
    and "files (content R) = None"
  shows "fst (handleRequest this files request) =
     Inr \<lparr>code = 404,
          body = ''<html><body>404 Resource Not Found: '' @ path request @ ''</body></html>'',
          contentType = ''text/html''\<rparr>"
  using assms
  by (simp add: handleRequest_def STATUS_NOT_FOUND_def)

theorem handleRequest_file_missing_witness:
  "routeLookUp RequestHandler_ctor ''/favicon.ico'' =
     Some \<lparr>allowedMethods = [''GET''], content = ''./static/img/favicon.jpg'', isFile = True\<rparr>
   \<and> ''GET'' \<in> set [''GET'']
   \<and> Map.empty ''./static/img/favicon.jpg'' = (None :: ifstream option)
   \<and> fst (handleRequest RequestHandler_ctor Map.empty
         \<lparr>method' = ''GET'', path = ''/favicon.ico'', httpVersion = ''HTTP/1.1'',
          headers = Map.empty, body = []\<rparr>) =
       Inr \<lparr>code = 404,
            body = ''<html><body>404 Resource Not Found: /favicon.ico</body></html>'',
            contentType = ''text/html''\<rparr>"
  using handleRequest_file_missing
    [of RequestHandler_ctor
      "\<lparr>method' = ''GET'', path = ''/favicon.ico'', httpVersion = ''HTTP/1.1'',
        headers = Map.empty, body = []\<rparr>"
      "\<lparr>allowedMethods = [''GET''], content = ''./static/img/favicon.jpg'', isFile = True\<rparr>"
      Map.empty]
  by (simp add: RequestHandler_ctor_def)

lemma handleRequest_unchanged:
  "snd (handleRequest this files request) = this"
  by (simp add: handleRequest_def split: option.splits sum.splits ifstream.splits)

text \<open>
  Claim C9. \<^verbatim>\<open>handleRequest\<close> leaves the handler, and so its route table, as it was,
  after one request and after any sequence of requests.
\<close>

theorem handleRequest_keeps_routeLookUp:
  "snd (handleRequest this files request) = this
   \<and> routeLookUp (snd (handleRequest this files request)) = routeLookUp this
   \<and> snd (handleRequests this requests) = this"
proof -
  have "snd (handleRequests this requests) = this"
  proof (induction requests)
    case Nil
    show ?case by simp
  next
    case (Cons fr requests)
    obtain files request where fr: "fr = (files, request)"
      by (cases fr)
    obtain r this' where step: "handleRequest this files request = (r, this')"
      by (cases "handleRequest this files request")
    then have "this' = this"
      using handleRequest_unchanged [of this files request] by simp
    with Cons.IH fr step show ?case
      by (simp add: split_beta split: sum.splits)
  qed
  then show ?thesis
    by (simp add: handleRequest_unchanged)
qed

subsection \<open>Serialization and status codes\<close>

lemma read_digits_digit:
  "n < 10 \<Longrightarrow> read_digits [''0123456789'' ! n] k = Some (10 * k + n)"
proof -
  assume "n < 10"
  then have "n \<in> {0, 1, 2, 3, 4, 5, 6, 7, 8, 9}" by auto
  then show ?thesis by auto
qed

lemma digit_in_digits:
  "n < 10 \<Longrightarrow> ''0123456789'' ! n \<in> set ''0123456789''"
proof -
  assume "n < 10"
  then have "n < length ''0123456789''" by simp
  then show ?thesis by (rule nth_mem)
qed

lemma read_digits_append:
  "read_digits (xs @ ys) n =
     (case read_digits xs n of None \<Rightarrow> None | Some k \<Rightarrow> read_digits ys k)"
  by (induction xs arbitrary: n) (simp_all split: option.splits)

lemma show_nat_not_Nil: "show_nat n \<noteq> []"
  by (subst show_nat.simps) simp

lemma set_show_nat: "set (show_nat n) \<subseteq> set ''0123456789''"
proof (induction n rule: show_nat.induct)
  case (1 n)
  show ?case
  proof (cases "n < 10")
    case True
    then show ?thesis
      using digit_in_digits [of n] by (subst show_nat.simps) simp
  next
    case False
    have "n mod 10 < 10" by simp
    with False "1.IH" show ?thesis
      using digit_in_digits [of "n mod 10"] by (subst show_nat.simps) simp
  qed
qed

lemma read_digits_show_nat: "read_digits (show_nat n) 0 = Some n"
proof (induction n rule: show_nat.induct)
  case (1 n)
  show ?case
  proof (cases "n < 10")
    case True
    then show ?thesis
      by (subst show_nat.simps) (simp add: read_digits_digit del: read_digits.simps)
  next
    case False
    have "n mod 10 < 10" by simp
    with False "1.IH" show ?thesis
      by (subst show_nat.simps)
        (simp add: read_digits_append read_digits_digit del: read_digits.simps)
  qed
qed

lemma read_decimal_show_nat: "read_decimal (show_nat n) = Some n"
  by (simp add: read_decimal_def show_nat_not_Nil read_digits_show_nat)

lemma LF_notin_show_nat: "LF \<notin> set (show_nat n)"
  using set_show_nat [of n] by (auto simp: LF_def)

lemma LF_notin_show_int: "LF \<notin> set (show_int i)"
  by (simp add: show_int_def LF_notin_show_nat) (simp add: LF_def)

lemma getline_line:
  assumes "LF \<notin> set l"
  shows "getline (l @ LF # rest) = Some (l, rest)"
proof -
  from assms have "takeWhile (\<lambda>c. c \<noteq> LF) (l @ LF # rest) = l"
    by (subst takeWhile_append2) auto
  moreover from assms have "dropWhile (\<lambda>c. c \<noteq> LF) (l @ LF # rest) = LF # rest"
    by (subst dropWhile_append2) auto
  ultimately show ?thesis
    by (simp add: getline_def)
qed


lemma show_int_200: "show_int 200 = ''200''"
  by (simp add: show_int_def show_nat.simps)

lemma show_int_404: "show_int 404 = ''404''"
  by (simp add: show_int_def show_nat.simps)

lemma show_int_405: "show_int 405 = ''405''"
  by (simp add: show_int_def show_nat.simps)

lemma reparse_skip:
  assumes "LF \<notin> set l" and "l \<noteq> []" and "take 16 l \<noteq> ''Content-Length: ''"
  shows "reparse_content_length (l @ LF # rest) = reparse_content_length rest"
  using assms by (subst reparse_content_length.simps) (simp add: getline_line)

lemma reparse_found:
  assumes "LF \<notin> set digits"
  shows "reparse_content_length ((''Content-Length: '' @ digits) @ LF # rest) =
    read_decimal digits"
proof -
  from assms have "LF \<notin> set (''Content-Length: '' @ digits)"
    by (simp add: LF_def)
  then have "getline ((''Content-Length: '' @ digits) @ LF # rest) =
      Some (''Content-Length: '' @ digits, rest)"
    by (rule getline_line)
  then show ?thesis
    by (subst reparse_content_length.simps) simp
qed

lemma buildResponse_lines:
  "buildResponse r =
     (''HTTP/1.1 '' @ show_int (code r) @ '' ''
        @ (if code r = 200 then ''OK'' else if code r = 404 then ''Not Found''
           else ''Method Not Allowed''))
     @ LF # (''Content-Type: '' @ contentType r)
     @ LF # (''Content-Length: '' @ show_nat (length (Response.body r)))
     @ LF # LF # Response.body r"
  by (simp add: buildResponse_def STATUS_SUCCESS_def STATUS_NOT_FOUND_def)

lemma reparse_buildResponse:
  assumes "LF \<notin> set (contentType r)"
  shows "reparse_content_length (buildResponse r) = Some (length (Response.body r))"
proof -
  define l1 where "l1 = ''HTTP/1.1 '' @ show_int (code r) @ '' ''
    @ (if code r = 200 then ''OK'' else if code r = 404 then ''Not Found''
       else ''Method Not Allowed'')"
  define l2 where "l2 = ''Content-Type: '' @ contentType r"
  define digits where "digits = show_nat (length (Response.body r))"
  have l1: "LF \<notin> set l1" "l1 \<noteq> []" "take 16 l1 \<noteq> ''Content-Length: ''"
    using LF_notin_show_int [of "code r"] by (auto simp: l1_def LF_def)
  have l2: "LF \<notin> set l2" "l2 \<noteq> []" "take 16 l2 \<noteq> ''Content-Length: ''"
    using assms by (auto simp: l2_def LF_def)
  have digits: "LF \<notin> set digits"
    by (simp add: digits_def LF_notin_show_nat)
  have "buildResponse r =
      l1 @ LF # l2 @ LF # (''Content-Length: '' @ digits) @ LF # LF # Response.body r"
    unfolding l1_def l2_def digits_def by (rule buildResponse_lines)
  then have "reparse_content_length (buildResponse r) = read_decimal digits"
    by (simp only: reparse_skip [OF l1] reparse_skip [OF l2] reparse_found [OF digits])
  then show ?thesis
    by (simp add: digits_def read_decimal_show_nat)
qed

text \<open>
  Claim C7. For every response, the serialized output ends with the header
  \<^verbatim>\<open>Content-Length: \<close>, the decimal digits of the byte length of the body, an empty
  line and the body itself, and reading the digits back gives that length. The body is any
  list of bytes: it may be empty and it may hold bytes outside ASCII. When the content type
  has no line feed, as every content type \<^verbatim>\<open>handleRequest\<close> produces, a client that
  reads the header block line by line finds this length as the value of its first
  \<^verbatim>\<open>Content-Length\<close> header.
\<close>

theorem buildResponse_content_length:
  "(\<exists>head. buildResponse r =
       head @ ''Content-Length: '' @ show_nat (length (Response.body r)) @ [LF, LF]
         @ Response.body r)
   \<and> read_decimal (show_nat (length (Response.body r))) = Some (length (Response.body r))
   \<and> (LF \<notin> set (contentType r) \<longrightarrow>
        reparse_content_length (buildResponse r) = Some (length (Response.body r)))"
proof (intro conjI impI)
  show "\<exists>head. buildResponse r =
      head @ ''Content-Length: '' @ show_nat (length (Response.body r)) @ [LF, LF]
        @ Response.body r"
    by (rule exI [of _ "''HTTP/1.1 '' @ show_int (code r) @ '' ''
         @ (if code r = STATUS_SUCCESS then ''OK''
            else if code r = STATUS_NOT_FOUND then ''Not Found''
            else ''Method Not Allowed'') @ [LF]
         @ ''Content-Type: '' @ contentType r @ [LF]"])
      (simp add: buildResponse_def)
next
  show "read_decimal (show_nat (length (Response.body r))) = Some (length (Response.body r))"
    by (rule read_decimal_show_nat)
next
  assume "LF \<notin> set (contentType r)"
  then show "reparse_content_length (buildResponse r) = Some (length (Response.body r))"
    by (rule reparse_buildResponse)
qed

theorem buildResponse_content_length_witness:
  "LF \<notin> set ''text/html''
   \<and> reparse_content_length
       (buildResponse \<lparr>code = 200, body = [CHR 0xC3, CHR 0xA9], contentType = ''text/html''\<rparr>)
     = Some 2
   \<and> LF \<notin> set ''image/jpeg''
   \<and> reparse_content_length
       (buildResponse \<lparr>code = 200, body = [], contentType = ''image/jpeg''\<rparr>) = Some 0"
  using buildResponse_content_length
      [of "\<lparr>code = 200, body = [CHR 0xC3, CHR 0xA9], contentType = ''text/html''\<rparr>"]
    buildResponse_content_length
      [of "\<lparr>code = 200, body = [], contentType = ''image/jpeg''\<rparr>"]
  by (simp add: LF_def)

lemma handleRequest_contentType:
  assumes "fst (handleRequest this files request) = Inr r"
  shows "LF \<notin> set (contentType r)"
proof -
  have "LF \<notin> set (resolve ext)" for ext
    by (simp add: resolve_def LF_def)
  with assms show ?thesis
    by (auto simp: handleRequest_def getContentType_resolve LF_def
        split: option.splits if_splits ifstream.splits)
qed

lemma reparse_handleRequest:
  assumes "fst (handleRequest this files request) = Inr r"
  shows "reparse_content_length (buildResponse r) = Some (length (Response.body r))"
  using assms by (intro reparse_buildResponse handleRequest_contentType)

lemma handleRequest_codes:
  assumes "fst (handleRequest this files request) = Inr r"
  shows "code r = 200 \<or> code r = 404 \<or> code r = 405"
  using assms
  by (auto simp: handleRequest_def getContentType_resolve STATUS_SUCCESS_def
      STATUS_NOT_FOUND_def STATUS_METHOD_NOT_ALLOWED_def
      split: option.splits if_splits ifstream.splits)

text \<open>
  \<^verbatim>\<open>handleRequest\<close> returns a response unless the request has an allowed method for a
  file-backed route whose file opens and then cannot be read; there, and only there, an
  exception leaves it.
\<close>

lemma handleRequest_throws_iff:
  "fst (handleRequest this files request) = Inl e \<longleftrightarrow>
     e = IosFailure \<and>
     (\<exists>R. routeLookUp this (path request) = Some R
        \<and> method' request \<in> set (allowedMethods R)
        \<and> isFile R \<and> files (content R) = Some ReadFails)"
  by (auto simp: handleRequest_def getContentType_resolve
      split: option.splits if_splits ifstream.splits)

lemma buildResponse_status_line:
  "code r = 200 \<Longrightarrow> prefix (''HTTP/1.1 200 OK'' @ [LF]) (buildResponse r)"
  "code r = 404 \<Longrightarrow> prefix (''HTTP/1.1 404 Not Found'' @ [LF]) (buildResponse r)"
  "code r = 405 \<Longrightarrow> prefix (''HTTP/1.1 405 Method Not Allowed'' @ [LF]) (buildResponse r)"
  by (simp_all add: buildResponse_lines show_int_200 show_int_404 show_int_405)

text \<open>
  Claim C8. Every response that \<^verbatim>\<open>handleRequest\<close> returns has code 200, 404 or 405,
  and \<^verbatim>\<open>buildResponse\<close> starts the serialization of such a response with the status
  line \<^verbatim>\<open>HTTP/1.1 200 OK\<close>, \<^verbatim>\<open>HTTP/1.1 404 Not Found\<close> or
  \<^verbatim>\<open>HTTP/1.1 405 Method Not Allowed\<close>, according to the code.
\<close>

theorem handleRequest_status_codes:
  assumes "fst (handleRequest this files request) = Inr r"
  shows "code r = 200 \<and> prefix (''HTTP/1.1 200 OK'' @ [LF]) (buildResponse r)
     \<or> code r = 404 \<and> prefix (''HTTP/1.1 404 Not Found'' @ [LF]) (buildResponse r)
     \<or> code r = 405
       \<and> prefix (''HTTP/1.1 405 Method Not Allowed'' @ [LF]) (buildResponse r)"
  using handleRequest_codes [OF assms] buildResponse_status_line [of r]
  by blast

theorem handleRequest_status_codes_witness:
  "fst (handleRequest RequestHandler_ctor
       [''./templates/index.html'' \<mapsto> Contents ''<html>index</html>'']
       \<lparr>method' = ''GET'', path = ''/'', httpVersion = ''HTTP/1.1'',
        headers = Map.empty, body = []\<rparr>) =
     Inr \<lparr>code = 200, body = ''<html>index</html>'', contentType = ''text/html''\<rparr>
   \<and> prefix (''HTTP/1.1 200 OK'' @ [LF])
       (buildResponse
         \<lparr>code = 200, body = ''<html>index</html>'', contentType = ''text/html''\<rparr>)"
proof -
  have returns: "fst (handleRequest RequestHandler_ctor
       [''./templates/index.html'' \<mapsto> Contents ''<html>index</html>'']
       \<lparr>method' = ''GET'', path = ''/'', httpVersion = ''HTTP/1.1'',
        headers = Map.empty, body = []\<rparr>) =
     Inr \<lparr>code = 200, body = ''<html>index</html>'', contentType = ''text/html''\<rparr>"
    by (simp add: handleRequest_def RequestHandler_ctor_def getContentType_resolve
        resolve_def final_extension_def STATUS_SUCCESS_def)
  from handleRequest_status_codes [OF returns] returns show ?thesis
    by simp
qed

subsection \<open>Request parsing\<close>

lemma getline_cases:
  assumes "getline stream = Some (line, rest)"
  shows "LF \<notin> set line \<and>
    (stream = line \<and> rest = [] \<and> line \<noteq> [] \<or> stream = line @ LF # rest)"
proof -
  let ?P = "\<lambda>c. c \<noteq> LF"
  from assms have ne: "stream \<noteq> []"
    and line: "line = takeWhile ?P stream"
    and rest: "rest = drop 1 (dropWhile ?P stream)"
    by (auto simp: getline_def split: if_splits)
  have split: "stream = line @ dropWhile ?P stream"
    by (simp add: line)
  have no_LF: "LF \<notin> set line"
    using set_takeWhileD [of LF ?P stream] by (auto simp: line)
  show ?thesis
  proof (cases "dropWhile ?P stream")
    case Nil
    with split have "stream = line" by simp
    moreover have "rest = []" unfolding rest Nil by simp
    moreover from ne \<open>stream = line\<close> have "line \<noteq> []" by simp
    ultimately show ?thesis using no_LF by simp
  next
    case (Cons c cs)
    then have "c = LF"
      using hd_dropWhile [of ?P stream] by simp
    with Cons rest have "dropWhile ?P stream = LF # rest" by simp
    with split no_LF show ?thesis by simp
  qed
qed

lemma read_body_eq:
  "read_body stream acc =
     acc @ (if stream = [] \<or> last stream = LF then stream else stream @ [LF])"
proof (induction stream acc rule: read_body.induct)
  case (1 stream acc)
  show ?case
  proof (cases "getline stream")
    case None
    then have "stream = []"
      by (simp add: getline_def split: if_splits)
    with None show ?thesis
      by (subst read_body.simps) simp
  next
    case (Some lr)
    obtain line rest where lr: "lr = (line, rest)"
      by (cases lr)
    from Some lr have g: "getline stream = Some (line, rest)"
      by simp
    have unfold: "read_body stream acc = read_body rest (acc @ line @ [LF])"
      by (subst read_body.simps) (simp add: g)
    have IH: "read_body rest (acc @ line @ [LF]) =
        (acc @ line @ [LF]) @ (if rest = [] \<or> last rest = LF then rest else rest @ [LF])"
      using "1.IH" [OF g refl] .
    from getline_cases [OF g]
    consider "stream = line" "rest = []" "line \<noteq> []" "LF \<notin> set line"
      | "stream = line @ LF # rest"
      by blast
    then show ?thesis
    proof cases
      case 1
      then have "last stream \<noteq> LF"
        by (metis last_in_set)
      with 1 unfold IH show ?thesis by simp
    next
      case 2
      with unfold IH show ?thesis by simp
    qed
  qed
qed

lemma read_headers_blank_line:
  "read_headers (CR # LF # payload) hs = Inr (hs, payload)"
  by (subst read_headers.simps) (simp add: getline_def LF_def CR_def)

lemma Request_ctor_body:
  assumes "Request_ctor raw = Inr r"
  shows "\<exists>stream. Request.body r = read_body stream []"
  using assms
  by (auto simp: Request_ctor_def Let_def split_beta split: sum.splits)

text \<open>
  Claim C10. Whenever the constructor returns a request, its body is empty or ends with a
  line feed: the body loop appends a line feed to every line it reads, so that the body is
  the text left after the header block, with a line feed added when that text is not empty
  and does not end with one. In particular a payload that does not end with a line feed is
  not reproduced byte for byte: after a request line and the blank line, the parsed body is
  the payload followed by a line feed.
\<close>

theorem Request_body_line_feed:
  "(\<forall>r. Request_ctor raw = Inr r \<longrightarrow> Request.body r = [] \<or> last (Request.body r) = LF)
   \<and> read_body stream [] = (if stream = [] \<or> last stream = LF then stream else stream @ [LF])
   \<and> (LF \<notin> set l \<longrightarrow>
        (\<exists>r. Request_ctor (l @ LF # CR # LF # payload) = Inr r
           \<and> Request.body r =
               (if payload = [] \<or> last payload = LF then payload else payload @ [LF])))"
proof (intro conjI allI impI)
  fix r
  assume "Request_ctor raw = Inr r"
  then obtain stream where "Request.body r = read_body stream []"
    using Request_ctor_body by blast
  then show "Request.body r = [] \<or> last (Request.body r) = LF"
    by (simp add: read_body_eq)
next
  show "read_body stream [] = (if stream = [] \<or> last stream = LF then stream else stream @ [LF])"
    by (simp add: read_body_eq)
next
  assume "LF \<notin> set l"
  then have "getline (l @ LF # CR # LF # payload) = Some (l, CR # LF # payload)"
    by (rule getline_line)
  then show "\<exists>r. Request_ctor (l @ LF # CR # LF # payload) = Inr r
      \<and> Request.body r = (if payload = [] \<or> last payload = LF then payload else payload @ [LF])"
    by (simp add: Request_ctor_def split_beta read_headers_blank_line read_body_eq)
qed

theorem Request_body_line_feed_witness:
  "LF \<notin> set (''POST /test/post HTTP/1.1'' @ [CR])
   \<and> Request_ctor (''POST /test/post HTTP/1.1'' @ [CR, LF, CR, LF] @ ''a=1'') =
       Inr \<lparr>method' = ''POST'', path = ''/test/post'', httpVersion = ''HTTP/1.1'',
            headers = Map.empty, body = ''a=1'' @ [LF]\<rparr>
   \<and> last (''a=1'' @ [LF]) = LF"
  using Request_body_line_feed
    [of "''POST /test/post HTTP/1.1'' @ [CR, LF, CR, LF] @ ''a=1''" "''a=1''"
      "''POST /test/post HTTP/1.1'' @ [CR]" "''a=1''"]
  by (simp add: Request_ctor_def getline_def extract_token_def isspace_def LF_def CR_def
      read_headers.simps read_body.simps)

lemma string_find_at_end:
  "c \<notin> set xs \<Longrightarrow> string_find (xs @ c # ys) c = Some (length xs)"
  by (induction xs) auto

lemma read_headers_colon_at_line_end:
  assumes "LF \<notin> set name" and "CHR '':'' \<notin> set name"
  shows "read_headers (name @ CHR '':'' # LF # rest) hs = Inl OutOfRange"
proof -
  from assms(1) have "LF \<notin> set (name @ '':'')"
    by (simp add: LF_def)
  then have "getline ((name @ '':'') @ LF # rest) = Some (name @ '':'', rest)"
    by (rule getline_line)
  then have "getline (name @ CHR '':'' # LF # rest) = Some (name @ '':'', rest)"
    by simp
  moreover have "name @ '':'' \<noteq> [CR]"
    by (cases name) (simp_all add: CR_def)
  moreover from assms(2) have "string_find (name @ '':'') (CHR '':'') = Some (length name)"
    by (simp add: string_find_at_end)
  ultimately show ?thesis
    by (subst read_headers.simps) (simp add: string_substr_def)
qed

lemma Request_ctor_colon_at_line_end:
  assumes "LF \<notin> set l" and "LF \<notin> set name" and "CHR '':'' \<notin> set name"
  shows "Request_ctor (l @ LF # name @ CHR '':'' # LF # rest) = Inl OutOfRange"
proof -
  from assms(1) have "getline (l @ LF # name @ CHR '':'' # LF # rest) =
      Some (l, name @ CHR '':'' # LF # rest)"
    by (rule getline_line)
  with assms(2,3) show ?thesis
    by (simp add: Request_ctor_def split_beta read_headers_colon_at_line_end)
qed

text \<open>
  Claim C2 says that the constructor returns a request for every text. It does not: a
  header line that ends with its first colon makes the second \<^verbatim>\<open>substr\<close> start two
  characters after the colon, past the end of the line, and \<^verbatim>\<open>std::out_of_range\<close>
  leaves the constructor. The lemma above shows it for every such line right after the
  request line; here the code is evaluated on a request with an empty \<^verbatim>\<open>Host\<close> header
  and line-feed line ends.
\<close>

theorem Request_ctor_throws:
  "Request_ctor (''GET / HTTP/1.1'' @ [LF] @ ''Host:'' @ [LF, LF]) = Inl OutOfRange"
  by (simp add: Request_ctor_def getline_def extract_token_def isspace_def LF_def CR_def
      read_headers.simps string_substr_def size_t_sub_def)

end
